theory Spec2Isabelle
  imports Complex_Main "HOL-Library.Word" "HOL-Library.Sublist"
begin

section \<open>JavaScript strings\<close>

text \<open>
  A JavaScript string is a sequence of UTF-16 code units, so it is modelled as a list of
  16-bit words. \<open>js\<close> embeds an ASCII literal. Record fields carry a short prefix where
  the source name is needed for a variable or is used by several objects.
\<close>

type_synonym jschar = "16 word"
type_synonym jstring = "jschar list"

definition js :: "string \<Rightarrow> jstring" where
  "js s = map of_char s"

text \<open>
  The code units matched by the regular expression class \<open>\s\<close> and stripped by
  \<open>String.prototype.trim\<close>: ECMAScript WhiteSpace and LineTerminator.
\<close>

definition is_space :: "jschar \<Rightarrow> bool" where
  "is_space c \<longleftrightarrow>
     c = 0x9 \<or> c = 0xA \<or> c = 0xB \<or> c = 0xC \<or> c = 0xD \<or> c = 0x20 \<or> c = 0xA0 \<or>
     c = 0x1680 \<or> (0x2000 \<le> c \<and> c \<le> 0x200A) \<or> c = 0x2028 \<or> c = 0x2029 \<or>
     c = 0x202F \<or> c = 0x205F \<or> c = 0x3000 \<or> c = 0xFEFF"

definition non_space :: "jschar \<Rightarrow> bool" where
  "non_space c \<longleftrightarrow> \<not> is_space c"

text \<open>\<open>String.prototype.trim\<close>.\<close>

definition trim :: "jstring \<Rightarrow> jstring" where
  "trim s = rev (dropWhile is_space (rev (dropWhile is_space s)))"

text \<open>
  \<open>s.split(/\s+/)\<close>: the pieces between the maximal runs of whitespace. A leading or
  trailing run yields an empty piece, and the empty string yields one empty piece.
\<close>

function split_ws :: "jstring \<Rightarrow> jstring list" where
  "split_ws s =
     (let rest = dropWhile non_space s in
      if rest = [] then [s]
      else takeWhile non_space s # split_ws (dropWhile is_space rest))"
  by pat_completeness auto
termination
proof (relation "measure length")
  show "wf (measure length)" by simp
next
  fix s rest :: jstring
  assume r: "rest = dropWhile non_space s" and ne: "rest \<noteq> []"
  from ne obtain c cs where rc: "rest = c # cs" by (cases rest) auto
  with r ne have "\<not> non_space c" by (metis hd_dropWhile list.sel(1))
  then have "is_space c" by (simp add: non_space_def)
  with rc have "length (dropWhile is_space rest) \<le> length cs"
    by (simp add: length_dropWhile_le)
  moreover have "length rest \<le> length s" unfolding r by (rule length_dropWhile_le)
  ultimately show "(dropWhile is_space rest, s) \<in> measure length"
    using rc by simp
qed

text \<open>\<open>Array.prototype.join\<close> with separator \<open>sep\<close>.\<close>

fun join :: "jstring \<Rightarrow> jstring list \<Rightarrow> jstring" where
  "join sep [] = []"
| "join sep [x] = x"
| "join sep (x # y # ys) = x @ sep @ join sep (y # ys)"

text \<open>
  Truthiness of an optional string: \<open>undefined\<close>, \<open>null\<close> (both \<open>None\<close>) and the
  empty string are falsy. \<open>truthy v\<close> is the string when \<open>v\<close> is truthy.
\<close>

definition truthy :: "jstring option \<Rightarrow> jstring option" where
  "truthy v = (case v of None \<Rightarrow> None | Some s \<Rightarrow> if s = [] then None else Some s)"

text \<open>\<open>s.indexOf(c)\<close> and \<open>s.lastIndexOf(c)\<close> for a one-unit string; \<open>None\<close> is \<open>-1\<close>.\<close>

definition indexOf :: "jschar \<Rightarrow> jstring \<Rightarrow> nat option" where
  "indexOf c s =
     (if c \<in> set s then Some (length (takeWhile (\<lambda>x. x \<noteq> c) s)) else None)"

definition lastIndexOf :: "jschar \<Rightarrow> jstring \<Rightarrow> nat option" where
  "lastIndexOf c s =
     (if c \<in> set s then Some (length s - 1 - length (takeWhile (\<lambda>x. x \<noteq> c) (rev s)))
      else None)"

text \<open>\<open>s.slice(a, b)\<close> for indices within the string; empty when \<open>b \<le> a\<close>.\<close>

definition slice :: "jstring \<Rightarrow> nat \<Rightarrow> nat \<Rightarrow> jstring" where
  "slice s a b = take (b - a) (drop a s)"

section \<open>Session names\<close>

definition generateSessionName :: "jstring \<Rightarrow> jstring" where
  "generateSessionName question =
     (if question = [] then js ''New Session''
      else let words = split_ws (trim question) in
        if length words \<le> 10 then trim question
        else join (js '' '') (take 10 words) @ js ''...'')"

text \<open>
  The whitespace-separated words of a string, as the specification counts them: the
  maximal runs of code units that are not whitespace.
\<close>

function ws_words :: "jstring \<Rightarrow> jstring list" where
  "ws_words s =
     (let t = dropWhile is_space s in
      if t = [] then []
      else takeWhile non_space t # ws_words (dropWhile non_space t))"
  by pat_completeness auto
termination
proof (relation "measure length")
  show "wf (measure length)" by simp
next
  fix s t :: jstring
  assume t: "t = dropWhile is_space s" and ne: "t \<noteq> []"
  from ne obtain c cs where tc: "t = c # cs" by (cases t) auto
  with t ne have "\<not> is_space c" by (metis hd_dropWhile list.sel(1))
  with tc have "length (dropWhile non_space t) \<le> length cs"
    by (simp add: non_space_def length_dropWhile_le)
  moreover have "length t \<le> length s" unfolding t by (rule length_dropWhile_le)
  ultimately show "(dropWhile non_space t, s) \<in> measure length"
    using tc by simp
qed

section \<open>Data model\<close>

text \<open>
  The objects of \<open>ask.js\<close> as records. An optional field holds \<open>None\<close> when the
  property is absent, \<open>undefined\<close> or \<open>null\<close>; values of another JavaScript type
  than the one written here are outside the model.
\<close>

record unanswered_part =
  u_text :: jstring
  u_reason :: jstring

record retrieved_context =
  ctx_text :: "jstring option"

record chunk =
  retrievedContext :: "retrieved_context option"

record message =
  m_role :: jstring
  m_question :: jstring
  m_answer :: jstring
  m_storesUsed :: "jstring list"
  m_grounding :: "jstring list"
  m_timestamp :: jstring
  m_unresolvedParts :: "unanswered_part list option"
  m_searchedIn :: "jstring option option"

text \<open>
  \<open>m_searchedIn\<close> is \<open>None\<close> when the message has no such property and
  \<open>Some None\<close> when the property is \<open>null\<close>.
\<close>

record session =
  s_sessionId :: jstring
  s_sessionName :: jstring
  s_email :: jstring
  s_createdAt :: jstring
  s_updatedAt :: jstring
  s_messages :: "message list option"

record log_entry =
  l_provider_email :: "jstring option"
  l_user_email :: jstring
  l_store_name :: jstring
  l_question :: jstring
  l_response :: "jstring option"
  l_grounding :: "chunk list option"
  l_asked_at :: jstring

text \<open>The parsed content of a provider log file: an array of entries, or another value.\<close>

datatype provider_file = LogArray "log_entry list" | NotAnArray

record accessible_store =
  storeName :: jstring
  accountEmail :: "jstring option"

record student =
  accessibleStores :: "accessible_store list option"
  universityEmail :: "jstring option"

record api_key_info =
  api_key :: "jstring option"

record university =
  apiKeyInfo :: "api_key_info option"

record classification =
  c_stores :: "jstring list option"
  c_split_questions :: "(jstring \<times> jstring) list option"
  c_unanswered :: "unanswered_part list option"

text \<open>
  The value of a JSON text, as far as the handler tells values apart: an object, with
  the three properties that the handler reads; \<open>null\<close>; or a number, a string, a
  boolean or an array, on which each of these properties is undefined.
\<close>

datatype json_value = JObject classification | JNull | JOther

text \<open>
  What \<open>model.generateContent\<close> and the extraction of its text give: an exception, or
  the text (the empty string when the reply carries none).
\<close>

datatype llm_reply = Threw | Text jstring

record grounding_metadata =
  groundingChunks :: "chunk list option"

record rag_data =
  response_text :: "jstring option"
  grounding_metadata :: "grounding_metadata option"

record rag_response =
  success :: bool
  data :: "rag_data option"

text \<open>
  What awaiting \<open>RAGService.askQuestion\<close> gives: the promise rejects, or it resolves to
  a response object or to a falsy value (\<open>None\<close>).
\<close>

datatype rag_outcome = Rejected | Resolved "rag_response option"

record ask_request =
  req_email :: "jstring option"
  req_question :: "jstring option"
  req_sessionId :: "jstring option"

record answer_body =
  r_sessionId :: "jstring option"
  r_answer :: jstring
  r_storesUsed :: "jstring list option"
  r_grounding :: "jstring list option"
  r_unanswered :: "unanswered_part list option"
  r_searchedIn :: "jstring option option"

datatype body = ErrorBody jstring | AnswerBody answer_body

text \<open>\<open>res.status(n).json(body)\<close>; \<open>res.json(body)\<close> has status 200.\<close>

datatype response = Response nat body

text \<open>
  The effects of one request that the properties speak of, in the order in which the
  program issues them.
\<close>

datatype event =
    RagCall "jstring option" jstring jstring
  | Respond response
  | CreateSession jstring jstring jstring
  | AppendMessage jstring jstring message
  | AppendProviderLog jstring log_entry

text \<open>
  What the handler reads and calls but does not own.
  \<^item> \<open>students\<close>, \<open>universities\<close>: the parsed files of the two directories, by file name;
    a missing or unparsable file is \<open>None\<close>.
  \<^item> \<open>generateContent key stores question\<close>: the external classification service.
  \<^item> \<open>JSON_parse\<close>: \<open>JSON.parse\<close> of the service's text, \<open>None\<close> when it throws.
  \<^item> \<open>askQuestion i key store question\<close>: the outcome of the \<open>i\<close>-th call (from 0) of
    \<open>RAGService.askQuestion(key, [store], question)\<close> in this request.
  \<^item> \<open>id_suffix\<close>: the text of \<open>Date.now() + "_" + Math.random().toString(36).slice(2, 8)\<close>.
  \<^item> \<open>now n\<close>: the text of the \<open>n\<close>-th \<open>new Date().toISOString()\<close>.
\<close>

record env =
  students :: "jstring \<rightharpoonup> student"
  universities :: "jstring \<rightharpoonup> university"
  generateContent :: "jstring \<Rightarrow> jstring list \<Rightarrow> jstring \<Rightarrow> llm_reply"
  JSON_parse :: "jstring \<Rightarrow> json_value option"
  askQuestion :: "nat \<Rightarrow> jstring option \<Rightarrow> jstring \<Rightarrow> jstring \<Rightarrow> rag_outcome"
  id_suffix :: jstring
  now :: "nat \<Rightarrow> jstring"

text \<open>
  The state the handler changes: the session files and the provider log files (by file
  name, a missing or unparsable file is \<open>None\<close>), the number of clock readings so far,
  and the events so far. Writing a file is taken to succeed.
\<close>

record world =
  chat_sessions :: "jstring \<rightharpoonup> session"
  provider_questions :: "jstring \<rightharpoonup> provider_file"
  clock :: nat
  trace :: "event list"

section \<open>Helpers\<close>

text \<open>\<open>email.replace(/[^a-zA-Z0-9@._-]/g, "_")\<close>.\<close>

definition safe_char :: "jschar \<Rightarrow> bool" where
  "safe_char c \<longleftrightarrow>
     (0x61 \<le> c \<and> c \<le> 0x7A) \<or> (0x41 \<le> c \<and> c \<le> 0x5A) \<or> (0x30 \<le> c \<and> c \<le> 0x39) \<or>
     c = 0x40 \<or> c = 0x2E \<or> c = 0x5F \<or> c = 0x2D"

definition sanitize :: "jstring \<Rightarrow> jstring" where
  "sanitize email = map (\<lambda>c. if safe_char c then c else 0x5F) email"

definition readStudent :: "env \<Rightarrow> jstring \<Rightarrow> student option" where
  "readStudent E email = students E (sanitize email @ js ''.json'')"

text \<open>An undefined email makes \<open>email.replace\<close> throw, which the function catches.\<close>

definition readUniversity :: "env \<Rightarrow> jstring option \<Rightarrow> university option" where
  "readUniversity E email =
     (case email of
        None \<Rightarrow> None
      | Some e \<Rightarrow> universities E (sanitize e @ js ''.json''))"

text \<open>The name of the session file inside the chat directory.\<close>

definition getSessionFile :: "jstring \<Rightarrow> jstring \<Rightarrow> jstring" where
  "getSessionFile email sessionId = sanitize email @ js ''__'' @ sessionId @ js ''.json''"

definition appendMessageToSessionFile ::
    "env \<Rightarrow> jstring \<Rightarrow> jstring \<Rightarrow> message \<Rightarrow> world \<Rightarrow> world" where
  "appendMessageToSessionFile E email sessionId messageObj w =
     (let file = getSessionFile email sessionId in
      case chat_sessions w file of
        Some session \<Rightarrow>
          w\<lparr>chat_sessions := (chat_sessions w)(file \<mapsto>
               session\<lparr>s_messages :=
                          Some ((case s_messages session of None \<Rightarrow> [] | Some ms \<Rightarrow> ms)
                                @ [messageObj]),
                        s_updatedAt := now E (clock w)\<rparr>),
            clock := clock w + 1,
            trace := trace w @ [AppendMessage email sessionId messageObj]\<rparr>
      | None \<Rightarrow>
          w\<lparr>chat_sessions := (chat_sessions w)(file \<mapsto>
               \<lparr>s_sessionId = sessionId,
                s_sessionName = generateSessionName (m_question messageObj),
                s_email = email,
                s_createdAt = now E (clock w),
                s_updatedAt = now E (clock w + 1),
                s_messages = Some [messageObj]\<rparr>),
            clock := clock w + 2,
            trace := trace w @ [AppendMessage email sessionId messageObj]\<rparr>)"

definition createSessionFile ::
    "env \<Rightarrow> jstring \<Rightarrow> jstring \<Rightarrow> jstring \<Rightarrow> world \<Rightarrow> world" where
  "createSessionFile E email sessionId sessionName w =
     w\<lparr>chat_sessions := (chat_sessions w)(getSessionFile email sessionId \<mapsto>
          \<lparr>s_sessionId = sessionId,
           s_sessionName = sessionName,
           s_email = email,
           s_createdAt = now E (clock w),
           s_updatedAt = now E (clock w + 1),
           s_messages = Some []\<rparr>),
       clock := clock w + 2,
       trace := trace w @ [CreateSession email sessionId sessionName]\<rparr>"

definition appendProviderLog :: "jstring \<Rightarrow> log_entry \<Rightarrow> world \<Rightarrow> world" where
  "appendProviderLog providerEmail logDoc w =
     (let file = sanitize providerEmail @ js ''.json'';
          arr = (case provider_questions w file of
                   Some (LogArray a) \<Rightarrow> a
                 | _ \<Rightarrow> [])
      in w\<lparr>provider_questions := (provider_questions w)(file \<mapsto> LogArray (arr @ [logDoc])),
           trace := trace w @ [AppendProviderLog providerEmail logDoc]\<rparr>)"

section \<open>The classifier\<close>

text \<open>The fallback value: every offered store, no split question, nothing unanswered.\<close>

definition select_all :: "jstring list \<Rightarrow> classification" where
  "select_all stores =
     \<lparr>c_stores = Some stores, c_split_questions = Some [], c_unanswered = Some []\<rparr>"

text \<open>
  The second parsing attempt works on \<open>raw.slice(start, end + 1)\<close> where \<open>start\<close> is the
  first \<open>{\<close> and \<open>end\<close> the last \<open>}\<close>; there is none when either index is \<open>-1\<close>.
\<close>

definition brace_span :: "jstring \<Rightarrow> jstring option" where
  "brace_span raw =
     (case (indexOf 0x7B raw, lastIndexOf 0x7D raw) of
        (Some start, Some end) \<Rightarrow> Some (slice raw start (end + 1))
      | _ \<Rightarrow> None)"

datatype js_error = ServiceError

text \<open>
  The body of the \<open>try\<close> block of \<open>classifyStores\<close>; \<open>Inl\<close> is an exception that
  leaves the block.
\<close>

definition classifyStores_body ::
    "env \<Rightarrow> jstring option \<Rightarrow> jstring list \<Rightarrow> jstring \<Rightarrow> js_error + json_value" where
  "classifyStores_body E geminiKey stores question =
     (case truthy geminiKey of
        None \<Rightarrow> Inr (JObject (select_all stores))
      | Some k \<Rightarrow>
          (case generateContent E k stores question of
             Threw \<Rightarrow> Inl ServiceError
           | Text txt \<Rightarrow>
               if txt = [] then
                 Inr (JObject
                   \<lparr>c_stores = Some [], c_split_questions = Some [], c_unanswered = Some []\<rparr>)
               else
                 let raw = trim txt in
                 (case JSON_parse E raw of
                    Some parsed \<Rightarrow> Inr parsed
                  | None \<Rightarrow>
                      (case brace_span raw of
                         Some sub \<Rightarrow>
                           (case JSON_parse E sub of
                              Some parsed \<Rightarrow> Inr parsed
                            | None \<Rightarrow> Inr (JObject (select_all stores)))
                       | None \<Rightarrow> Inr (JObject (select_all stores))))))"

text \<open>The function with its \<open>catch\<close>; \<open>Inl\<close> would be a rejected promise.\<close>

definition classifyStores ::
    "env \<Rightarrow> jstring option \<Rightarrow> jstring list \<Rightarrow> jstring \<Rightarrow> js_error + json_value" where
  "classifyStores E geminiKey stores question =
     (case classifyStores_body E geminiKey stores question of
        Inl err \<Rightarrow> Inr (JObject (select_all stores))
      | Inr result \<Rightarrow> Inr result)"



section \<open>The ask handler\<close>

definition respond :: "response \<Rightarrow> world \<Rightarrow> world" where
  "respond r w = w\<lparr>trace := trace w @ [Respond r]\<rparr>"

text \<open>\<open>student.accessibleStores || []\<close>.\<close>

definition accessible_of :: "student \<Rightarrow> accessible_store list" where
  "accessible_of student = (case accessibleStores student of None \<Rightarrow> [] | Some a \<Rightarrow> a)"

text \<open>\<open>university?.apiKeyInfo?.key || null\<close> for the student's university.\<close>

definition geminiKey_of :: "env \<Rightarrow> student \<Rightarrow> jstring option" where
  "geminiKey_of E student =
     (case readUniversity E (universityEmail student) of
        None \<Rightarrow> None
      | Some university \<Rightarrow>
          (case apiKeyInfo university of
             None \<Rightarrow> None
           | Some info \<Rightarrow> truthy (api_key info)))"

text \<open>\<open>(splitQuestions && splitQuestions[store]) ? splitQuestions[store] : question\<close>.\<close>

definition qForStore :: "(jstring \<times> jstring) list \<Rightarrow> jstring \<Rightarrow> jstring \<Rightarrow> jstring" where
  "qForStore splitQuestions question store =
     (case truthy (map_of splitQuestions store) of
        Some q \<Rightarrow> q
      | None \<Rightarrow> question)"

text \<open>
  \<open>dept?.accountEmail || null\<close> with \<open>dept = accessible.find(x => x.storeName === store)\<close>.
\<close>

definition provider_of :: "accessible_store list \<Rightarrow> jstring \<Rightarrow> jstring option" where
  "provider_of accessible store =
     (case find (\<lambda>x. storeName x = store) accessible of
        None \<Rightarrow> None
      | Some dept \<Rightarrow> truthy (accountEmail dept))"

text \<open>\<open>!ragResp || !ragResp.success || !ragResp.data\<close>.\<close>

definition rag_failed :: "rag_response option \<Rightarrow> bool" where
  "rag_failed ragResp =
     (case ragResp of
        None \<Rightarrow> True
      | Some r \<Rightarrow> \<not> success r \<or> data r = None)"

text \<open>\<open>ragResp.data.response_text || ""\<close>.\<close>

definition answerText_of :: "rag_response option \<Rightarrow> jstring" where
  "answerText_of ragResp =
     (case ragResp of
        None \<Rightarrow> []
      | Some r \<Rightarrow>
          (case data r of
             None \<Rightarrow> []
           | Some d \<Rightarrow> (case response_text d of None \<Rightarrow> [] | Some t \<Rightarrow> t)))"

text \<open>\<open>ragResp.data.grounding_metadata?.groundingChunks || []\<close>.\<close>

definition groundingChunks_of :: "rag_response option \<Rightarrow> chunk list" where
  "groundingChunks_of ragResp =
     (case ragResp of
        None \<Rightarrow> []
      | Some r \<Rightarrow>
          (case data r of
             None \<Rightarrow> []
           | Some d \<Rightarrow>
               (case grounding_metadata d of
                  None \<Rightarrow> []
                | Some g \<Rightarrow> (case groundingChunks g of None \<Rightarrow> [] | Some cs \<Rightarrow> cs))))"

text \<open>The inner loop that pushes the text of each chunk that has one.\<close>

fun collect_grounding :: "jstring list \<Rightarrow> chunk list \<Rightarrow> jstring list" where
  "collect_grounding allGrounding [] = allGrounding"
| "collect_grounding allGrounding (chunk # chunks) =
     collect_grounding
       (case retrievedContext chunk of
          None \<Rightarrow> allGrounding
        | Some ctx \<Rightarrow>
            (case truthy (ctx_text ctx) of
               None \<Rightarrow> allGrounding
             | Some t \<Rightarrow> allGrounding @ [t]))
       chunks"

record rag_result =
  rr_store :: jstring
  rr_answerText :: jstring
  rr_groundingChunks :: "chunk list"

text \<open>
  How the loop over the predicted stores ends: at a store whose call failed (with that
  store, the question sent to it, and \<open>ragResults\<close> and \<open>allGrounding\<close> as they are at that
  point), after the last store, or by the exception of a rejected call.
\<close>

datatype fan_outcome =
    StoreFailed jstring jstring "rag_result list" "jstring list"
  | AllAnswered "rag_result list" "jstring list"
  | CallRejected

fun fan_out ::
    "env \<Rightarrow> jstring option \<Rightarrow> (jstring \<times> jstring) list \<Rightarrow> jstring \<Rightarrow> jstring list \<Rightarrow>
     nat \<Rightarrow> rag_result list \<Rightarrow> jstring list \<Rightarrow> world \<Rightarrow> fan_outcome \<times> world" where
  "fan_out E geminiKey splitQuestions question [] i ragResults allGrounding w =
     (AllAnswered ragResults allGrounding, w)"
| "fan_out E geminiKey splitQuestions question (store # rest) i ragResults allGrounding w =
     (let q = qForStore splitQuestions question store;
          w1 = w\<lparr>trace := trace w @ [RagCall geminiKey store q]\<rparr>
      in case askQuestion E i geminiKey store q of
           Rejected \<Rightarrow> (CallRejected, w1)
         | Resolved ragResp \<Rightarrow>
             if rag_failed ragResp then (StoreFailed store q ragResults allGrounding, w1)
             else
               fan_out E geminiKey splitQuestions question rest (Suc i)
                 (ragResults @
                    [\<lparr>rr_store = store, rr_answerText = answerText_of ragResp,
                      rr_groundingChunks = groundingChunks_of ragResp\<rparr>])
                 (collect_grounding allGrounding (groundingChunks_of ragResp))
                 w1)"

text \<open>
  In the three branches below \<open>sessionName\<close> is \<open>Some name\<close> exactly when \<open>isNewSession\<close>
  holds: the handler sets the name then and leaves it undefined otherwise.
\<close>

definition create_if_new ::
    "env \<Rightarrow> jstring \<Rightarrow> jstring \<Rightarrow> jstring option \<Rightarrow> world \<Rightarrow> world" where
  "create_if_new E email sessionId sessionName w =
     (case sessionName of
        Some name \<Rightarrow> createSessionFile E email sessionId name w
      | None \<Rightarrow> w)"

definition no_store_selected ::
    "env \<Rightarrow> jstring \<Rightarrow> jstring \<Rightarrow> jstring \<Rightarrow> jstring option \<Rightarrow> unanswered_part list \<Rightarrow>
     world \<Rightarrow> world" where
  "no_store_selected E email question sessionId sessionName unanswered w =
     (let answerText = js ''Sorry, none of the departments can answer this.'';
          w1 = respond (Response 200 (AnswerBody
                 \<lparr>r_sessionId = Some sessionId, r_answer = answerText,
                  r_storesUsed = Some [], r_grounding = None,
                  r_unanswered = Some unanswered, r_searchedIn = None\<rparr>)) w;
          w2 = create_if_new E email sessionId sessionName w1;
          messageObj =
            \<lparr>m_role = js ''assistant'', m_question = question, m_answer = answerText,
             m_storesUsed = [], m_grounding = [], m_timestamp = now E (clock w2),
             m_unresolvedParts = Some unanswered, m_searchedIn = None\<rparr>
      in appendMessageToSessionFile E email sessionId messageObj (w2\<lparr>clock := clock w2 + 1\<rparr>))"

definition store_failed ::
    "env \<Rightarrow> accessible_store list \<Rightarrow> jstring \<Rightarrow> jstring \<Rightarrow> jstring \<Rightarrow> jstring option \<Rightarrow>
     jstring \<Rightarrow> jstring \<Rightarrow> world \<Rightarrow> world" where
  "store_failed E accessible email question sessionId sessionName store q w =
     (let searchedIn = provider_of accessible store;
          answerText = js ''Sorry we didn't find any information related to this.'';
          w1 = respond (Response 200 (AnswerBody
                 \<lparr>r_sessionId = Some sessionId, r_answer = answerText,
                  r_storesUsed = None, r_grounding = None,
                  r_unanswered = None, r_searchedIn = Some searchedIn\<rparr>)) w;
          w2 = create_if_new E email sessionId sessionName w1;
          messageObj =
            \<lparr>m_role = js ''assistant'', m_question = question, m_answer = answerText,
             m_storesUsed = [store], m_grounding = [], m_timestamp = now E (clock w2),
             m_unresolvedParts = None, m_searchedIn = Some searchedIn\<rparr>;
          w3 = appendMessageToSessionFile E email sessionId messageObj
                 (w2\<lparr>clock := clock w2 + 1\<rparr>)
      in case searchedIn of
           None \<Rightarrow> w3
         | Some provider \<Rightarrow>
             appendProviderLog provider
               \<lparr>l_provider_email = Some provider, l_user_email = email, l_store_name = store,
                l_question = q, l_response = None, l_grounding = None,
                l_asked_at = now E (clock w3)\<rparr>
               (w3\<lparr>clock := clock w3 + 1\<rparr>))"

text \<open>The merge of step 3.\<close>

definition merge_answers :: "rag_result list \<Rightarrow> jstring" where
  "merge_answers ragResults =
     (if length ragResults = 1 then rr_answerText (hd ragResults)
      else join [0xA, 0xA]
             (map (\<lambda>r. js ''**'' @ rr_store r @ js ''**:'' @ [0xA] @ rr_answerText r)
                ragResults))"

text \<open>The loop that writes one provider log entry for each element of \<open>ragResults\<close>.\<close>

fun provider_logs ::
    "env \<Rightarrow> accessible_store list \<Rightarrow> (jstring \<times> jstring) list \<Rightarrow> jstring \<Rightarrow> jstring \<Rightarrow>
     rag_result list \<Rightarrow> world \<Rightarrow> world" where
  "provider_logs E accessible splitQuestions email question [] w = w"
| "provider_logs E accessible splitQuestions email question (r # rs) w =
     (let store = rr_store r;
          providerEmail = provider_of accessible store;
          q = qForStore splitQuestions question store
      in provider_logs E accessible splitQuestions email question rs
           (appendProviderLog
              (case providerEmail of None \<Rightarrow> js ''unknown'' | Some p \<Rightarrow> p)
              \<lparr>l_provider_email = providerEmail, l_user_email = email, l_store_name = store,
               l_question = q, l_response = Some (rr_answerText r),
               l_grounding = Some (rr_groundingChunks r), l_asked_at = now E (clock w)\<rparr>
              (w\<lparr>clock := clock w + 1\<rparr>)))"

definition all_answered ::
    "env \<Rightarrow> accessible_store list \<Rightarrow> (jstring \<times> jstring) list \<Rightarrow> jstring \<Rightarrow> jstring \<Rightarrow>
     jstring \<Rightarrow> jstring option \<Rightarrow> jstring list \<Rightarrow> rag_result list \<Rightarrow> jstring list \<Rightarrow>
     world \<Rightarrow> world" where
  "all_answered E accessible splitQuestions email question sessionId sessionName
       predictedStores ragResults allGrounding w =
     (let finalAnswer = merge_answers ragResults;
          w1 = respond (Response 200 (AnswerBody
                 \<lparr>r_sessionId = Some sessionId, r_answer = finalAnswer,
                  r_storesUsed = Some predictedStores, r_grounding = Some allGrounding,
                  r_unanswered = None, r_searchedIn = None\<rparr>)) w;
          w2 = create_if_new E email sessionId sessionName w1;
          messageObj =
            \<lparr>m_role = js ''assistant'', m_question = question, m_answer = finalAnswer,
             m_storesUsed = predictedStores, m_grounding = allGrounding,
             m_timestamp = now E (clock w2),
             m_unresolvedParts = None, m_searchedIn = None\<rparr>;
          w3 = appendMessageToSessionFile E email sessionId messageObj
                 (w2\<lparr>clock := clock w2 + 1\<rparr>)
      in provider_logs E accessible splitQuestions email question ragResults w3)"

text \<open>The session id of the request and the name of the session when it is new.\<close>

definition session_of :: "env \<Rightarrow> ask_request \<Rightarrow> jstring \<Rightarrow> jstring \<times> jstring option" where
  "session_of E req question =
     (case truthy (req_sessionId req) of
        None \<Rightarrow> (js ''session_'' @ id_suffix E, Some (generateSessionName question))
      | Some sessionId \<Rightarrow> (sessionId, None))"

text \<open>
  The properties that the handler reads from the classification: reading a property of
  \<open>null\<close> throws a TypeError (\<open>None\<close>), and a value that is not an object has none of
  them.
\<close>

definition properties_of :: "json_value \<Rightarrow> classification option" where
  "properties_of v =
     (case v of
        JObject c \<Rightarrow> Some c
      | JNull \<Rightarrow> None
      | JOther \<Rightarrow> Some \<lparr>c_stores = None, c_split_questions = None, c_unanswered = None\<rparr>)"

text \<open>
  \<open>classification.stores || []\<close>, \<open>classification.split_questions || {}\<close> and
  \<open>classification.unanswered || []\<close>.
\<close>

definition predictedStores_of :: "classification \<Rightarrow> jstring list" where
  "predictedStores_of c = (case c_stores c of None \<Rightarrow> [] | Some ss \<Rightarrow> ss)"

definition splitQuestions_of :: "classification \<Rightarrow> (jstring \<times> jstring) list" where
  "splitQuestions_of c = (case c_split_questions c of None \<Rightarrow> [] | Some sq \<Rightarrow> sq)"

definition unanswered_of :: "classification \<Rightarrow> unanswered_part list" where
  "unanswered_of c = (case c_unanswered c of None \<Rightarrow> [] | Some u \<Rightarrow> u)"

text \<open>
  Steps 1 and 2 and what follows them, for a request that has passed the checks. A
  rejected promise of the classifier or of a retrieval call, and the TypeError of a
  \<open>null\<close> classification, reach the handler's \<open>catch\<close>, which answers 500 as no response
  has been sent yet.
\<close>

definition route ::
    "env \<Rightarrow> accessible_store list \<Rightarrow> jstring option \<Rightarrow> jstring \<Rightarrow> jstring \<Rightarrow> jstring \<Rightarrow>
     jstring option \<Rightarrow> world \<Rightarrow> world" where
  "route E accessible geminiKey email question sessionId sessionName w =
     (case classifyStores E geminiKey (map storeName accessible) question of
        Inl err \<Rightarrow> respond (Response 500 (ErrorBody (js ''Internal Server Error''))) w
      | Inr v \<Rightarrow>
          (case properties_of v of
             None \<Rightarrow> respond (Response 500 (ErrorBody (js ''Internal Server Error''))) w
           | Some classification \<Rightarrow>
               let predictedStores = predictedStores_of classification;
                   splitQuestions = splitQuestions_of classification;
                   unanswered = unanswered_of classification
               in if length predictedStores = 0 then
                    no_store_selected E email question sessionId sessionName unanswered w
                  else
                    (case fan_out E geminiKey splitQuestions question predictedStores 0 [] [] w of
                       (StoreFailed store q ragResults allGrounding, w1) \<Rightarrow>
                         store_failed E accessible email question sessionId sessionName
                           store q w1
                     | (AllAnswered ragResults allGrounding, w1) \<Rightarrow>
                         all_answered E accessible splitQuestions email question sessionId
                           sessionName predictedStores ragResults allGrounding w1
                     | (CallRejected, w1) \<Rightarrow>
                         respond (Response 500 (ErrorBody (js ''Internal Server Error'')))
                           w1)))"

text \<open>\<open>router.post("/ask", ...)\<close>.\<close>

definition ask :: "env \<Rightarrow> ask_request \<Rightarrow> world \<Rightarrow> world" where
  "ask E req w =
     (case (truthy (req_email req), truthy (req_question req)) of
        (Some email, Some question) \<Rightarrow>
          (case readStudent E email of
             None \<Rightarrow> respond (Response 404 (ErrorBody (js ''Student not found''))) w
           | Some student \<Rightarrow>
               let accessible = accessible_of student;
                   storeNames = map storeName accessible
               in if length storeNames = 0 then
                    respond (Response 200 (AnswerBody
                      \<lparr>r_sessionId = None,
                       r_answer = js ''No RAG stores available for your account.'',
                       r_storesUsed = Some [], r_grounding = Some [],
                       r_unanswered = None, r_searchedIn = None\<rparr>)) w
                  else
                    (case session_of E req question of
                       (sessionId, sessionName) \<Rightarrow>
                         route E accessible (geminiKey_of E student) email question
                           sessionId sessionName w))
      | _ \<Rightarrow> respond (Response 400 (ErrorBody (js ''email & question required''))) w)"

section \<open>The session query service\<close>

text \<open>
  JavaScript numbers as far as the comparator of the session list needs them. A finite
  number is kept exact: the sign of a difference of two finite numbers is the sign of
  the exact difference.
\<close>

datatype jsnum = NaN | NegInfinity | Finite rat | PosInfinity

fun js_minus :: "jsnum \<Rightarrow> jsnum \<Rightarrow> jsnum" where
  "js_minus NaN y = NaN"
| "js_minus x NaN = NaN"
| "js_minus PosInfinity PosInfinity = NaN"
| "js_minus NegInfinity NegInfinity = NaN"
| "js_minus PosInfinity y = PosInfinity"
| "js_minus NegInfinity y = NegInfinity"
| "js_minus (Finite a) PosInfinity = NegInfinity"
| "js_minus (Finite a) NegInfinity = PosInfinity"
| "js_minus (Finite a) (Finite b) = Finite (a - b)"

fun positive :: "jsnum \<Rightarrow> bool" where
  "positive PosInfinity = True"
| "positive (Finite a) = (0 < a)"
| "positive x = False"

text \<open>
  The code units that occur in some text of the StringNumericLiteral grammar: whitespace,
  digits, signs, the point, the exponent mark, the letters of \<open>Infinity\<close>, the hexadecimal
  digits and the radix prefixes.
\<close>

definition numeric_char :: "jschar \<Rightarrow> bool" where
  "numeric_char c \<longleftrightarrow>
     is_space c \<or> (0x30 \<le> c \<and> c \<le> 0x39) \<or> c = 0x2B \<or> c = 0x2D \<or> c = 0x2E \<or>
     (0x61 \<le> c \<and> c \<le> 0x66) \<or> (0x41 \<le> c \<and> c \<le> 0x46) \<or>
     c = 0x49 \<or> c = 0x6E \<or> c = 0x69 \<or> c = 0x74 \<or> c = 0x79 \<or>
     c = 0x78 \<or> c = 0x58 \<or> c = 0x6F \<or> c = 0x4F"

text \<open>
  The conversion of a string to a number. A string with a code unit outside the grammar
  is not a numeric literal and converts to \<open>NaN\<close>; the value of every other string is
  left to the parameter \<open>literal\<close>.
\<close>

definition StringToNumber :: "(jstring \<Rightarrow> jsnum) \<Rightarrow> jstring \<Rightarrow> jsnum" where
  "StringToNumber literal s = (if list_all numeric_char s then literal s else NaN)"

text \<open>
  \<open>Array.prototype.sort(cmp)\<close>: a comparator result that is \<open>NaN\<close> counts as 0, and
  the sort is stable. For a consistent comparator this insertion sort gives the order
  the language defines; for an inconsistent one the language leaves the order open.
\<close>

fun insert_by :: "('a \<Rightarrow> 'a \<Rightarrow> jsnum) \<Rightarrow> 'a \<Rightarrow> 'a list \<Rightarrow> 'a list" where
  "insert_by cmp x [] = [x]"
| "insert_by cmp x (y # ys) =
     (if positive (cmp x y) then y # insert_by cmp x ys else x # y # ys)"

definition js_sort :: "('a \<Rightarrow> 'a \<Rightarrow> jsnum) \<Rightarrow> 'a list \<Rightarrow> 'a list" where
  "js_sort cmp xs = foldr (insert_by cmp) xs []"

record session_info =
  i_sessionId :: jstring
  i_sessionName :: jstring
  i_createdAt :: jstring

text \<open>The number that \<open>(x.createdAt || 0)\<close> contributes to the subtraction.\<close>

definition createdAt_number :: "(jstring \<Rightarrow> jsnum) \<Rightarrow> session_info \<Rightarrow> jsnum" where
  "createdAt_number literal x =
     (if i_createdAt x = [] then Finite 0 else StringToNumber literal (i_createdAt x))"

text \<open>The loop over the directory listing.\<close>

fun collect_sessions ::
    "world \<Rightarrow> jstring \<Rightarrow> session_info list \<Rightarrow> jstring list \<Rightarrow> session_info list" where
  "collect_sessions w safePrefix sessions [] = sessions"
| "collect_sessions w safePrefix sessions (file # files) =
     collect_sessions w safePrefix
       (if prefix (safePrefix @ js ''__'') file then
          (case chat_sessions w file of
             Some d \<Rightarrow>
               sessions @
                 [\<lparr>i_sessionId = s_sessionId d, i_sessionName = s_sessionName d,
                   i_createdAt = s_createdAt d\<rparr>]
           | None \<Rightarrow> sessions)
        else sessions)
       files"

text \<open>
  \<open>router.get("/sessions/:email", ...)\<close>, the \<open>sessions\<close> of its response; \<open>files\<close> is
  what \<open>fs.readdir\<close> returns.
\<close>

definition list_sessions ::
    "(jstring \<Rightarrow> jsnum) \<Rightarrow> jstring list \<Rightarrow> world \<Rightarrow> jstring \<Rightarrow> session_info list" where
  "list_sessions literal files w email =
     js_sort (\<lambda>a b. js_minus (createdAt_number literal b) (createdAt_number literal a))
       (collect_sessions w (sanitize email) [] files)"



section \<open>Observations on a trace\<close>

fun is_rag_call :: "event \<Rightarrow> bool" where
  "is_rag_call (RagCall k s q) = True"
| "is_rag_call e = False"

fun is_provider_log :: "event \<Rightarrow> bool" where
  "is_provider_log (AppendProviderLog p l) = True"
| "is_provider_log e = False"


text \<open>The stores of the retrieval calls and of the provider log entries, in order.\<close>

fun called_stores :: "event list \<Rightarrow> jstring list" where
  "called_stores [] = []"
| "called_stores (RagCall k s q # es) = s # called_stores es"
| "called_stores (e # es) = called_stores es"

fun logged_stores :: "event list \<Rightarrow> jstring list" where
  "logged_stores [] = []"
| "logged_stores (AppendProviderLog p l # es) = l_store_name l # logged_stores es"
| "logged_stores (e # es) = logged_stores es"


text \<open>
  The order of the persistence steps of one request: the session may be created, then
  the message is appended, then provider log entries follow.
\<close>

fun persistence_in_order :: "event list \<Rightarrow> bool" where
  "persistence_in_order [] = True"
| "persistence_in_order (CreateSession e s n # AppendMessage e' s' m # logs) =
     list_all is_provider_log logs"
| "persistence_in_order (AppendMessage e s m # logs) = list_all is_provider_log logs"
| "persistence_in_order es = False"

section \<open>The terms of the properties\<close>






text \<open>The outcomes of the calls for the stores \<open>ss\<close> when the first of them is call \<open>i\<close>.\<close>

fun replies_from ::
    "env \<Rightarrow> jstring option \<Rightarrow> (jstring \<times> jstring) list \<Rightarrow> jstring \<Rightarrow> nat \<Rightarrow> jstring list \<Rightarrow>
     rag_outcome list" where
  "replies_from E geminiKey splitQuestions question i [] = []"
| "replies_from E geminiKey splitQuestions question i (s # ss) =
     askQuestion E i geminiKey s (qForStore splitQuestions question s) #
     replies_from E geminiKey splitQuestions question (Suc i) ss"

text \<open>The provider whose log receives the entry of an answered store.\<close>

definition log_target :: "accessible_store list \<Rightarrow> jstring \<Rightarrow> jstring" where
  "log_target accessible store =
     (case provider_of accessible store of None \<Rightarrow> js ''unknown'' | Some p \<Rightarrow> p)"



text \<open>The events that a request adds to the trace.\<close>

definition events_of :: "env \<Rightarrow> ask_request \<Rightarrow> world \<Rightarrow> event list" where
  "events_of E req w = drop (length (trace w)) (trace (ask E req w))"

section \<open>A sample account\<close>

text \<open>
  A student at a university, with the stores \<open>admissions\<close> and \<open>library\<close> of two
  departments. The parameters of the sample environment are the student record, the
  university's credential, what the classification service does, and the outcome of
  the retrieval call for every store but \<open>admissions\<close>, whose call resolves to an answer
  with one chunk of evidence. \<open>JSON_parse\<close> stands for \<open>JSON.parse\<close> on the texts the
  samples use: \<open>{}\<close> is an object without properties, \<open>null\<close> is \<open>null\<close>, and \<open>{} {}\<close>
  does not parse.
\<close>

definition sample_student :: student where
  "sample_student =
     \<lparr>accessibleStores =
        Some [\<lparr>storeName = js ''admissions'', accountEmail = Some (js ''adm@u.edu'')\<rparr>,
              \<lparr>storeName = js ''library'', accountEmail = Some (js ''lib@u.edu'')\<rparr>],
      universityEmail = Some (js ''u.edu'')\<rparr>"

definition sample_reply :: "jstring \<Rightarrow> jstring \<Rightarrow> rag_response option" where
  "sample_reply answer snippet =
     Some \<lparr>success = True,
           data = Some \<lparr>response_text = Some answer,
                        grounding_metadata =
                          Some \<lparr>groundingChunks =
                                  Some [\<lparr>retrievedContext =
                                           Some \<lparr>ctx_text = Some snippet\<rparr>\<rparr>]\<rparr>\<rparr>\<rparr>"

definition sample_env ::
    "student \<Rightarrow> jstring option \<Rightarrow> llm_reply \<Rightarrow> rag_outcome \<Rightarrow> env" where
  "sample_env student credential llm library_reply =
     \<lparr>students = (\<lambda>file. if file = js ''s@u.edu.json'' then Some student else None),
      universities =
        (\<lambda>file. if file = js ''u.edu.json''
           then Some \<lparr>apiKeyInfo = Some \<lparr>api_key = credential\<rparr>\<rparr> else None),
      generateContent = (\<lambda>k ss q. llm),
      JSON_parse =
        (\<lambda>s. if s = js ''{}''
           then Some (JObject
                  \<lparr>c_stores = None, c_split_questions = None, c_unanswered = None\<rparr>)
           else if s = js ''null'' then Some JNull
           else None),
      askQuestion =
        (\<lambda>i k store q.
           if store = js ''admissions''
           then Resolved (sample_reply (js ''9am'') (js ''Desk opens 9am''))
           else library_reply),
      id_suffix = js ''1700000000000_k3x9qa'',
      now = (\<lambda>n. js ''2024-01-01T00:00:00.000Z'')\<rparr>"

definition sample_request :: "jstring option \<Rightarrow> ask_request" where
  "sample_request sessionId =
     \<lparr>req_email = Some (js ''s@u.edu''), req_question = Some (js ''When do you open?''),
      req_sessionId = sessionId\<rparr>"

definition empty_world :: world where
  "empty_world =
     \<lparr>chat_sessions = Map.empty, provider_questions = Map.empty, clock = 0, trace = []\<rparr>"

text \<open>
  Two session files of the sample student, the first created a day before the second,
  as the only files of the chat directory.
\<close>

definition sample_session :: "jstring \<Rightarrow> jstring \<Rightarrow> session" where
  "sample_session sessionId createdAt =
     \<lparr>s_sessionId = sessionId, s_sessionName = js ''Hello'', s_email = js ''s@u.edu'',
      s_createdAt = createdAt, s_updatedAt = createdAt, s_messages = Some []\<rparr>"

definition sample_chat :: world where
  "sample_chat =
     \<lparr>chat_sessions =
        [js ''s@u.edu__a.json'' \<mapsto> sample_session (js ''a'') (js ''2024-01-01T00:00:00.000Z''),
         js ''s@u.edu__b.json'' \<mapsto> sample_session (js ''b'') (js ''2024-01-02T00:00:00.000Z'')],
      provider_questions = Map.empty, clock = 0, trace = []\<rparr>"

section \<open>Session names: properties\<close>

declare split_ws.simps [simp del] ws_words.simps [simp del]

lemma ws_words_Nil: "ws_words [] = []"
  by (subst ws_words.simps) simp

lemma ws_words_dropWhile: "ws_words (dropWhile is_space s) = ws_words s"
  by (subst ws_words.simps, subst (2) ws_words.simps) simp

lemma ws_words_all_space: "list_all is_space w \<Longrightarrow> ws_words w = []"
proof -
  assume "list_all is_space w"
  then have "dropWhile is_space w = []" by (simp add: list_all_iff)
  then show ?thesis by (subst ws_words.simps) simp
qed

lemma dropWhile_hd_id: "xs \<noteq> [] \<Longrightarrow> \<not> P (hd xs) \<Longrightarrow> dropWhile P xs = xs"
  by (cases xs) auto

lemma ws_words_unfold:
  "dropWhile is_space s = t \<Longrightarrow> t \<noteq> [] \<Longrightarrow>
     ws_words s = takeWhile non_space t # ws_words (dropWhile non_space t)"
  by (subst ws_words.simps) (simp add: Let_def)

lemma ws_words_append_space:
  "list_all is_space w \<Longrightarrow> ws_words (v @ w) = ws_words v"
proof (induction v rule: ws_words.induct)
  case (1 s)
  define t where "t = dropWhile is_space s"
  show ?case
  proof (cases "t = []")
    case True
    then have "list_all is_space (s @ w)" using 1(2)
      by (auto simp: t_def list_all_iff dropWhile_eq_Nil_conv)
    then have "ws_words (s @ w) = []" by (rule ws_words_all_space)
    moreover have "list_all is_space s" using True
      by (auto simp: t_def list_all_iff dropWhile_eq_Nil_conv)
    then have "ws_words s = []" by (rule ws_words_all_space)
    ultimately show ?thesis by simp
  next
    case False
    then obtain x where x: "x \<in> set s" "\<not> is_space x"
      by (auto simp: t_def dropWhile_eq_Nil_conv)
    then have dw: "dropWhile is_space (s @ w) = t @ w"
      by (simp add: t_def dropWhile_append1)
    have ih: "ws_words (dropWhile non_space t @ w) = ws_words (dropWhile non_space t)"
      using 1(1) [OF t_def False 1(2)] .
    have tw_ne: "t @ w \<noteq> []" using False by simp
    have lhs: "ws_words (s @ w) =
        takeWhile non_space (t @ w) # ws_words (dropWhile non_space (t @ w))"
      by (rule ws_words_unfold [OF dw tw_ne])
    have rhs: "ws_words s = takeWhile non_space t # ws_words (dropWhile non_space t)"
      by (rule ws_words_unfold [OF t_def [symmetric] False])
    show ?thesis
    proof (cases "list_all non_space t")
      case True
      then have tw: "takeWhile non_space (t @ w) = t @ takeWhile non_space w"
        and dw2: "dropWhile non_space (t @ w) = dropWhile non_space w"
        and t1: "takeWhile non_space t = t" and t2: "dropWhile non_space t = []"
        by (simp_all add: list_all_iff takeWhile_append2 dropWhile_append2)
      have w1: "takeWhile non_space w = []" using 1(2)
        by (cases w) (simp_all add: non_space_def)
      have "list_all is_space (dropWhile non_space w)"
        using 1(2) by (auto simp: list_all_iff dest: set_dropWhileD)
      then have w2: "ws_words (dropWhile non_space w) = []"
        by (rule ws_words_all_space)
      show ?thesis
        unfolding lhs rhs tw dw2 w1 w2 t1 t2 by (simp add: ws_words_Nil)
    next
      case nall: False
      then obtain y where y: "y \<in> set t" "\<not> non_space y" by (auto simp: list_all_iff)
      then have tw: "takeWhile non_space (t @ w) = takeWhile non_space t"
        and dw2: "dropWhile non_space (t @ w) = dropWhile non_space t @ w"
        by (simp_all add: takeWhile_append1 dropWhile_append1)
      show ?thesis unfolding lhs rhs tw dw2 ih by simp
    qed
  qed
qed

lemma trim_decomp:
  "dropWhile is_space s = trim s @ rev (takeWhile is_space (rev (dropWhile is_space s)))"
  unfolding trim_def
  by (metis rev_append rev_rev_ident takeWhile_dropWhile_id)

lemma ws_words_trim: "ws_words (trim s) = ws_words s"
proof -
  let ?w = "rev (takeWhile is_space (rev (dropWhile is_space s)))"
  have "list_all is_space ?w" by (auto simp: list_all_iff dest: set_takeWhileD)
  then have "ws_words (trim s @ ?w) = ws_words (trim s)" by (rule ws_words_append_space)
  then show ?thesis using trim_decomp [of s] by (simp add: ws_words_dropWhile)
qed

lemma trim_last: "trim s \<noteq> [] \<Longrightarrow> non_space (last (trim s))"
  unfolding trim_def non_space_def
  by (simp add: last_rev hd_dropWhile)

lemma trim_hd: "trim s \<noteq> [] \<Longrightarrow> non_space (hd (trim s))"
proof -
  assume ne: "trim s \<noteq> []"
  then have "hd (dropWhile is_space s) = hd (trim s)"
    using trim_decomp [of s] by (metis hd_append2)
  moreover have "dropWhile is_space s \<noteq> []" using ne trim_decomp [of s]
    by (metis append_is_Nil_conv)
  ultimately show ?thesis using hd_dropWhile [of is_space s] by (simp add: non_space_def)
qed

lemma split_ws_unfold:
  "dropWhile non_space s = r \<Longrightarrow> r \<noteq> [] \<Longrightarrow>
     split_ws s = takeWhile non_space s # split_ws (dropWhile is_space r)"
  by (subst split_ws.simps) (simp add: Let_def)

lemma split_ws_single: "dropWhile non_space s = [] \<Longrightarrow> split_ws s = [s]"
  by (subst split_ws.simps) (simp add: Let_def)

lemma split_ws_eq_ws_words:
  "t \<noteq> [] \<Longrightarrow> non_space (hd t) \<Longrightarrow> non_space (last t) \<Longrightarrow> split_ws t = ws_words t"
proof (induction t rule: split_ws.induct)
  case (1 s)
  define r where "r = dropWhile non_space s"
  have d0: "dropWhile is_space s = s"
    using 1(2,3) by (intro dropWhile_hd_id) (simp_all add: non_space_def)
  have w: "ws_words s = takeWhile non_space s # ws_words r"
    unfolding r_def by (rule ws_words_unfold [OF d0 1(2)])
  show ?case
  proof (cases "r = []")
    case True
    then have sp: "split_ws s = [s]" unfolding r_def by (rule split_ws_single)
    have tk: "takeWhile non_space s = s"
      using True by (simp add: r_def dropWhile_eq_Nil_conv)
    show ?thesis unfolding sp w tk True ws_words_Nil by (rule refl)
  next
    case False
    define t where "t = dropWhile is_space r"
    have lastr: "last r = last s" using False unfolding r_def
      by (metis takeWhile_dropWhile_id last_appendR)
    have tne: "t \<noteq> []"
    proof
      assume "t = []"
      then have "\<forall>x\<in>set r. is_space x" by (simp add: t_def dropWhile_eq_Nil_conv)
      moreover have "last r \<in> set r" using False by simp
      ultimately show False using 1(4) lastr by (simp add: non_space_def)
    qed
    have hdt: "non_space (hd t)" using tne hd_dropWhile [of is_space r]
      by (simp add: non_space_def t_def)
    have "last t = last r" using tne unfolding t_def
      by (metis takeWhile_dropWhile_id last_appendR)
    then have lastt: "non_space (last t)" using lastr 1(4) by simp
    have ih: "split_ws t = ws_words t"
      using 1(1) [OF r_def False] tne hdt lastt unfolding t_def by simp
    have "split_ws s = takeWhile non_space s # split_ws t"
      unfolding t_def by (rule split_ws_unfold [OF r_def [symmetric] False])
    then show ?thesis using w ih by (simp add: t_def ws_words_dropWhile)
  qed
qed

lemma split_ws_trim:
  "split_ws (trim s) = (if trim s = [] then [[]] else ws_words s)"
proof (cases "trim s = []")
  case True
  then show ?thesis by (subst split_ws.simps) simp
next
  case False
  then show ?thesis
    using split_ws_eq_ws_words [OF False trim_hd [OF False] trim_last [OF False]]
    by (simp add: ws_words_trim)
qed

lemma trim_id: "s \<noteq> [] \<Longrightarrow> non_space (hd s) \<Longrightarrow> non_space (last s) \<Longrightarrow> trim s = s"
proof -
  assume ne: "s \<noteq> []" and h: "non_space (hd s)" and l: "non_space (last s)"
  have "dropWhile is_space s = s" using ne h by (intro dropWhile_hd_id) (simp_all add: non_space_def)
  moreover have "dropWhile is_space (rev s) = rev s"
    using ne l by (intro dropWhile_hd_id) (simp_all add: non_space_def hd_rev)
  ultimately show ?thesis by (simp add: trim_def)
qed


lemma ws_words_are_words:
  "w \<in> set (ws_words s) \<Longrightarrow> w \<noteq> [] \<and> list_all non_space w"
proof (induction s rule: ws_words.induct)
  case (1 s)
  define t where "t = dropWhile is_space s"
  show ?case
  proof (cases "t = []")
    case True
    then have "list_all is_space s" by (simp add: t_def list_all_iff)
    then have "ws_words s = []" by (rule ws_words_all_space)
    with 1(2) show ?thesis by simp
  next
    case False
    then have hd: "non_space (hd t)" using hd_dropWhile [of is_space s]
      by (simp add: t_def non_space_def)
    have u: "ws_words s = takeWhile non_space t # ws_words (dropWhile non_space t)"
      by (rule ws_words_unfold [OF t_def [symmetric] False])
    from 1(2) u consider "w = takeWhile non_space t" | "w \<in> set (ws_words (dropWhile non_space t))"
      by auto
    then show ?thesis
    proof cases
      case 1
      moreover have "takeWhile non_space t \<noteq> []" using False hd by (cases t) simp_all
      moreover have "list_all non_space (takeWhile non_space t)"
        by (auto simp: list_all_iff dest: set_takeWhileD)
      ultimately show ?thesis by simp
    next
      case 2
      with "1.IH" [OF t_def False] show ?thesis by simp
    qed
  qed
qed

lemma ws_words_nonempty: "ws_words s \<noteq> [] \<Longrightarrow> trim s \<noteq> []"
proof
  assume a: "ws_words s \<noteq> []" and "trim s = []"
  then have "ws_words (trim s) = []" by (simp add: ws_words_Nil)
  with a show False by (simp add: ws_words_trim)
qed

text \<open>
  C6 (amended). The empty question is named \<open>New Session\<close>. A non-empty question of at
  most 10 whitespace-separated words is named by the question with its leading and
  trailing whitespace removed, which is the question itself when it has none. A question
  of more than 10 words is named by its first 10 words joined by single spaces and
  followed by three dots.
\<close>

theorem generateSessionName_words:
  "generateSessionName [] = js ''New Session'' \<and>
   (q \<noteq> [] \<and> length (ws_words q) \<le> 10 \<longrightarrow> generateSessionName q = trim q) \<and>
   (q \<noteq> [] \<and> non_space (hd q) \<and> non_space (last q) \<and> length (ws_words q) \<le> 10 \<longrightarrow>
      generateSessionName q = q) \<and>
   (10 < length (ws_words q) \<longrightarrow>
      generateSessionName q = join (js '' '') (take 10 (ws_words q)) @ js ''...'')"
proof -
  have short: "generateSessionName q = trim q"
    if "q \<noteq> []" "length (ws_words q) \<le> 10"
    using that by (simp add: generateSessionName_def split_ws_trim Let_def)
  have verbatim: "generateSessionName q = q"
    if "q \<noteq> []" "non_space (hd q)" "non_space (last q)" "length (ws_words q) \<le> 10"
    using short [OF that(1) that(4)] trim_id [OF that(1-3)] by simp
  have long: "generateSessionName q = join (js '' '') (take 10 (ws_words q)) @ js ''...''"
    if a: "10 < length (ws_words q)"
  proof -
    from a have "ws_words q \<noteq> []" by auto
    then have t: "trim q \<noteq> []" by (rule ws_words_nonempty)
    then have "q \<noteq> []" by (auto simp: trim_def)
    with a t show ?thesis
      by (simp add: generateSessionName_def split_ws_trim Let_def)
  qed
  have "generateSessionName [] = js ''New Session''"
    by (simp add: generateSessionName_def)
  with short verbatim long show ?thesis by blast
qed

text \<open>
  The theorem at the question of the specification (8 words), at a question of 11 words
  and at a padded question.
\<close>

theorem generateSessionName_words_witness:
  "generateSessionName (js ''What time does the library open on weekdays?'') =
     js ''What time does the library open on weekdays?'' \<and>
   10 < length (ws_words (js ''a b c d e f g h i j k'')) \<and>
   generateSessionName (js ''a b c d e f g h i j k'') = js ''a b c d e f g h i j...'' \<and>
   length (ws_words (js ''  hello  world '')) \<le> 10 \<and>
   generateSessionName (js ''  hello  world '') = js ''hello  world''"
proof -
  let ?lib = "js ''What time does the library open on weekdays?''"
  let ?long = "js ''a b c d e f g h i j k''"
  let ?pad = "js ''  hello  world ''"
  have l1: "?lib \<noteq> [] \<and> non_space (hd ?lib) \<and> non_space (last ?lib) \<and>
      length (ws_words ?lib) \<le> 10" by code_simp
  have l2: "10 < length (ws_words ?long)" by code_simp
  have l3: "join (js '' '') (take 10 (ws_words ?long)) @ js ''...'' = js ''a b c d e f g h i j...''"
    by code_simp
  have l4: "?pad \<noteq> [] \<and> length (ws_words ?pad) \<le> 10" by code_simp
  have l5: "trim ?pad = js ''hello  world''" by code_simp
  from generateSessionName_words [of ?lib] l1
  have r1: "generateSessionName ?lib = ?lib" by blast
  from generateSessionName_words [of ?long] l2 l3
  have r2: "generateSessionName ?long = js ''a b c d e f g h i j...''" by metis
  from generateSessionName_words [of ?pad] l4 l5
  have r3: "generateSessionName ?pad = js ''hello  world''" by metis
  from r1 r2 r3 l2 l4 show ?thesis by blast
qed

text \<open>
  C6 as stated fails: a question of one word with a leading space is not its own name.
\<close>

theorem generateSessionName_not_verbatim:
  "length (ws_words (js '' hi'')) \<le> 10 \<and> generateSessionName (js '' hi'') \<noteq> js '' hi''"
  by code_simp


subsection \<open>Effects of the persistence operations\<close>

lemma trace_createSessionFile:
  "trace (createSessionFile E email sessionId name w) =
     trace w @ [CreateSession email sessionId name]"
  by (simp add: createSessionFile_def)

lemma trace_create_if_new:
  "trace (create_if_new E email sessionId sessionName w) =
     trace w @ (case sessionName of None \<Rightarrow> [] | Some n \<Rightarrow> [CreateSession email sessionId n])"
  by (simp add: create_if_new_def trace_createSessionFile split: option.split)

lemma trace_appendMessage:
  "trace (appendMessageToSessionFile E email sessionId m w) =
     trace w @ [AppendMessage email sessionId m]"
  by (simp add: appendMessageToSessionFile_def Let_def split: option.split)

lemma trace_appendProviderLog:
  "trace (appendProviderLog p l w) = trace w @ [AppendProviderLog p l]"
  by (simp add: appendProviderLog_def Let_def)

lemma clock_appendProviderLog: "clock (appendProviderLog p l w) = clock w"
  by (simp add: appendProviderLog_def Let_def)


subsection \<open>The replies of a fan-out\<close>

lemma length_replies_from [simp]:
  "length (replies_from E key sq q i ss) = length ss"
  by (induction ss arbitrary: i) simp_all



lemma take_replies_from:
  "take k (replies_from E key sq q i ss) = replies_from E key sq q i (take k ss)"
proof (induction ss arbitrary: i k)
  case Nil
  then show ?case by simp
next
  case (Cons s ss)
  then show ?case by (cases k) simp_all
qed


subsection \<open>The loop over the predicted stores\<close>



text \<open>What the loop does whatever the outcomes are.\<close>

lemma fan_out_calls:
  "fan_out E key sq q ss i rs g w = (out, w') \<Longrightarrow>
     \<exists>calls new.
       w' = w\<lparr>trace := trace w @ calls\<rparr> \<and> list_all is_rag_call calls \<and>
       (case out of
          StoreFailed s qs rs' g' \<Rightarrow> rs' = rs @ new \<and> called_stores calls = map rr_store new @ [s]
        | AllAnswered rs' g' \<Rightarrow> rs' = rs @ new \<and> called_stores calls = map rr_store new
        | CallRejected \<Rightarrow> True)"
proof (induction ss arbitrary: i rs g w)
  case Nil
  then have "w' = w\<lparr>trace := trace w @ []\<rparr> \<and> list_all is_rag_call [] \<and>
       (case out of
          StoreFailed s qs rs' g' \<Rightarrow> rs' = rs @ [] \<and> called_stores [] = map rr_store [] @ [s]
        | AllAnswered rs' g' \<Rightarrow> rs' = rs @ [] \<and> called_stores [] = map rr_store []
        | CallRejected \<Rightarrow> True)"
    by auto
  then show ?case by blast
next
  case (Cons s ss)
  let ?q = "qForStore sq q s"
  let ?w1 = "w\<lparr>trace := trace w @ [RagCall key s ?q]\<rparr>"
  have stop: ?case if "out = StoreFailed s ?q rs g \<or> out = CallRejected" and "w' = ?w1"
  proof -
    from that have "w' = w\<lparr>trace := trace w @ [RagCall key s ?q]\<rparr> \<and>
        list_all is_rag_call [RagCall key s ?q] \<and>
        (case out of
          StoreFailed s' qs rs' g' \<Rightarrow>
            rs' = rs @ [] \<and> called_stores [RagCall key s ?q] = map rr_store [] @ [s']
        | AllAnswered rs' g' \<Rightarrow>
            rs' = rs @ [] \<and> called_stores [RagCall key s ?q] = map rr_store []
        | CallRejected \<Rightarrow> True)"
      by auto
    then show ?thesis by blast
  qed
  show ?case
  proof (cases "askQuestion E i key s ?q")
    case Rejected
    with Cons.prems have "out = CallRejected" and "w' = ?w1"
      by (simp_all add: Let_def)
    then show ?thesis by (intro stop) simp_all
  next
    case (Resolved r)
    show ?thesis
    proof (cases "rag_failed r")
      case True
      with Cons.prems Resolved have "out = StoreFailed s ?q rs g" and "w' = ?w1"
        by (simp_all add: Let_def)
      then show ?thesis by (intro stop) simp_all
    next
      case False
      let ?res = "\<lparr>rr_store = s, rr_answerText = answerText_of r,
                    rr_groundingChunks = groundingChunks_of r\<rparr>"
      from False Cons.prems Resolved
      have "fan_out E key sq q ss (Suc i) (rs @ [?res])
              (collect_grounding g (groundingChunks_of r)) ?w1 = (out, w')"
        by (simp add: Let_def)
      from Cons.IH [OF this] obtain calls new where
        w': "w' = ?w1\<lparr>trace := trace ?w1 @ calls\<rparr>" and rc: "list_all is_rag_call calls" and
        o: "case out of
            StoreFailed s' qs rs' g' \<Rightarrow>
              rs' = (rs @ [?res]) @ new \<and> called_stores calls = map rr_store new @ [s']
          | AllAnswered rs' g' \<Rightarrow>
              rs' = (rs @ [?res]) @ new \<and> called_stores calls = map rr_store new
          | CallRejected \<Rightarrow> True"
        by blast
      have "w' = w\<lparr>trace := trace w @ (RagCall key s ?q # calls)\<rparr> \<and>
          list_all is_rag_call (RagCall key s ?q # calls) \<and>
          (case out of
            StoreFailed s' qs rs' g' \<Rightarrow>
              rs' = rs @ (?res # new) \<and>
              called_stores (RagCall key s ?q # calls) = map rr_store (?res # new) @ [s']
          | AllAnswered rs' g' \<Rightarrow>
              rs' = rs @ (?res # new) \<and>
              called_stores (RagCall key s ?q # calls) = map rr_store (?res # new)
          | CallRejected \<Rightarrow> True)"
        using w' rc o by (simp split: fan_outcome.splits)
      then show ?thesis by blast
    qed
  qed
qed

subsection \<open>The three branches that persist\<close>

lemma provider_logs_trace:
  "\<exists>ts. length ts = length rs \<and>
     trace (provider_logs E acc sq email q rs w) =
       trace w @
       map2 (\<lambda>r t. AppendProviderLog (log_target acc (rr_store r))
               \<lparr>l_provider_email = provider_of acc (rr_store r), l_user_email = email,
                l_store_name = rr_store r, l_question = qForStore sq q (rr_store r),
                l_response = Some (rr_answerText r),
                l_grounding = Some (rr_groundingChunks r), l_asked_at = t\<rparr>) rs ts"
proof (induction rs arbitrary: w)
  case Nil
  then show ?case by simp
next
  case (Cons r rs)
  let ?e = "\<lambda>r t. AppendProviderLog (log_target acc (rr_store r))
               \<lparr>l_provider_email = provider_of acc (rr_store r), l_user_email = email,
                l_store_name = rr_store r, l_question = qForStore sq q (rr_store r),
                l_response = Some (rr_answerText r),
                l_grounding = Some (rr_groundingChunks r), l_asked_at = t\<rparr>"
  let ?w1 = "appendProviderLog (log_target acc (rr_store r))
               \<lparr>l_provider_email = provider_of acc (rr_store r), l_user_email = email,
                l_store_name = rr_store r, l_question = qForStore sq q (rr_store r),
                l_response = Some (rr_answerText r),
                l_grounding = Some (rr_groundingChunks r), l_asked_at = now E (clock w)\<rparr>
               (w\<lparr>clock := clock w + 1\<rparr>)"
  from Cons.IH [of ?w1] obtain ts where
    len: "length ts = length rs" and
    tr: "trace (provider_logs E acc sq email q rs ?w1) = trace ?w1 @ map2 ?e rs ts"
    by blast
  have step: "provider_logs E acc sq email q (r # rs) w = provider_logs E acc sq email q rs ?w1"
    by (simp add: Let_def log_target_def)
  have "length (now E (clock w) # ts) = length (r # rs) \<and>
      trace (provider_logs E acc sq email q (r # rs) w) =
        trace w @ map2 ?e (r # rs) (now E (clock w) # ts)"
    unfolding step tr using len by (simp add: trace_appendProviderLog)
  then show ?case by blast
qed

lemma all_answered_trace:
  "\<exists>m ts. length ts = length rs \<and>
     trace (all_answered E acc sq email q sid name ss rs g w) =
       trace w @
       Respond (Response 200 (AnswerBody
         \<lparr>r_sessionId = Some sid, r_answer = merge_answers rs, r_storesUsed = Some ss,
          r_grounding = Some g, r_unanswered = None, r_searchedIn = None\<rparr>)) #
       (case name of None \<Rightarrow> [] | Some n \<Rightarrow> [CreateSession email sid n]) @
       AppendMessage email sid m #
       map2 (\<lambda>r t. AppendProviderLog (log_target acc (rr_store r))
               \<lparr>l_provider_email = provider_of acc (rr_store r), l_user_email = email,
                l_store_name = rr_store r, l_question = qForStore sq q (rr_store r),
                l_response = Some (rr_answerText r),
                l_grounding = Some (rr_groundingChunks r), l_asked_at = t\<rparr>) rs ts"
proof -
  define w1 where "w1 = respond (Response 200 (AnswerBody
         \<lparr>r_sessionId = Some sid, r_answer = merge_answers rs, r_storesUsed = Some ss,
          r_grounding = Some g, r_unanswered = None, r_searchedIn = None\<rparr>)) w"
  define w2 where "w2 = create_if_new E email sid name w1"
  define m where "m = \<lparr>m_role = js ''assistant'', m_question = q,
      m_answer = merge_answers rs, m_storesUsed = ss, m_grounding = g,
      m_timestamp = now E (clock w2), m_unresolvedParts = None, m_searchedIn = None\<rparr>"
  define w3 where "w3 = appendMessageToSessionFile E email sid m (w2\<lparr>clock := clock w2 + 1\<rparr>)"
  have a: "all_answered E acc sq email q sid name ss rs g w =
      provider_logs E acc sq email q rs w3"
    by (simp add: all_answered_def Let_def w1_def w2_def m_def w3_def)
  have t3: "trace w3 = trace w @
       Respond (Response 200 (AnswerBody
         \<lparr>r_sessionId = Some sid, r_answer = merge_answers rs, r_storesUsed = Some ss,
          r_grounding = Some g, r_unanswered = None, r_searchedIn = None\<rparr>)) #
       (case name of None \<Rightarrow> [] | Some n \<Rightarrow> [CreateSession email sid n]) @
       [AppendMessage email sid m]"
    by (simp add: w3_def w2_def w1_def trace_appendMessage trace_create_if_new respond_def)
  from provider_logs_trace [of rs E acc sq email q w3] obtain ts where
    "length ts = length rs" and
    "trace (provider_logs E acc sq email q rs w3) = trace w3 @
       map2 (\<lambda>r t. AppendProviderLog (log_target acc (rr_store r))
               \<lparr>l_provider_email = provider_of acc (rr_store r), l_user_email = email,
                l_store_name = rr_store r, l_question = qForStore sq q (rr_store r),
                l_response = Some (rr_answerText r),
                l_grounding = Some (rr_groundingChunks r), l_asked_at = t\<rparr>) rs ts"
    by blast
  then show ?thesis unfolding a t3 by auto
qed

lemma store_failed_trace:
  "\<exists>m t. trace (store_failed E acc email q sid name store qs w) =
       trace w @
       Respond (Response 200 (AnswerBody
         \<lparr>r_sessionId = Some sid,
          r_answer = js ''Sorry we didn't find any information related to this.'',
          r_storesUsed = None, r_grounding = None, r_unanswered = None,
          r_searchedIn = Some (provider_of acc store)\<rparr>)) #
       (case name of None \<Rightarrow> [] | Some n \<Rightarrow> [CreateSession email sid n]) @
       AppendMessage email sid m #
       (case provider_of acc store of
          None \<Rightarrow> []
        | Some p \<Rightarrow>
            [AppendProviderLog p
               \<lparr>l_provider_email = Some p, l_user_email = email, l_store_name = store,
                l_question = qs, l_response = None, l_grounding = None, l_asked_at = t\<rparr>])"
proof -
  define w1 where "w1 = respond (Response 200 (AnswerBody
         \<lparr>r_sessionId = Some sid,
          r_answer = js ''Sorry we didn't find any information related to this.'',
          r_storesUsed = None, r_grounding = None, r_unanswered = None,
          r_searchedIn = Some (provider_of acc store)\<rparr>)) w"
  define w2 where "w2 = create_if_new E email sid name w1"
  define m where "m = \<lparr>m_role = js ''assistant'', m_question = q,
      m_answer = js ''Sorry we didn't find any information related to this.'',
      m_storesUsed = [store], m_grounding = [],
      m_timestamp = now E (clock w2), m_unresolvedParts = None,
      m_searchedIn = Some (provider_of acc store)\<rparr>"
  define w3 where "w3 = appendMessageToSessionFile E email sid m (w2\<lparr>clock := clock w2 + 1\<rparr>)"
  have a: "store_failed E acc email q sid name store qs w =
      (case provider_of acc store of
         None \<Rightarrow> w3
       | Some p \<Rightarrow>
           appendProviderLog p
             \<lparr>l_provider_email = Some p, l_user_email = email, l_store_name = store,
              l_question = qs, l_response = None, l_grounding = None,
              l_asked_at = now E (clock w3)\<rparr> (w3\<lparr>clock := clock w3 + 1\<rparr>))"
    by (simp add: store_failed_def Let_def w1_def w2_def m_def w3_def split: option.split)
  have t3: "trace w3 = trace w @
       Respond (Response 200 (AnswerBody
         \<lparr>r_sessionId = Some sid,
          r_answer = js ''Sorry we didn't find any information related to this.'',
          r_storesUsed = None, r_grounding = None, r_unanswered = None,
          r_searchedIn = Some (provider_of acc store)\<rparr>)) #
       (case name of None \<Rightarrow> [] | Some n \<Rightarrow> [CreateSession email sid n]) @
       [AppendMessage email sid m]"
    by (simp add: w3_def w2_def w1_def trace_appendMessage trace_create_if_new respond_def)
  have "trace (store_failed E acc email q sid name store qs w) =
       trace w @
       Respond (Response 200 (AnswerBody
         \<lparr>r_sessionId = Some sid,
          r_answer = js ''Sorry we didn't find any information related to this.'',
          r_storesUsed = None, r_grounding = None, r_unanswered = None,
          r_searchedIn = Some (provider_of acc store)\<rparr>)) #
       (case name of None \<Rightarrow> [] | Some n \<Rightarrow> [CreateSession email sid n]) @
       AppendMessage email sid m #
       (case provider_of acc store of
          None \<Rightarrow> []
        | Some p \<Rightarrow>
            [AppendProviderLog p
               \<lparr>l_provider_email = Some p, l_user_email = email, l_store_name = store,
                l_question = qs, l_response = None, l_grounding = None,
                l_asked_at = now E (clock w3)\<rparr>])"
    unfolding a by (simp add: t3 trace_appendProviderLog split: option.split)
  then show ?thesis by blast
qed

lemma no_store_selected_trace:
  "\<exists>m. trace (no_store_selected E email q sid name u w) =
       trace w @
       Respond (Response 200 (AnswerBody
         \<lparr>r_sessionId = Some sid,
          r_answer = js ''Sorry, none of the departments can answer this.'',
          r_storesUsed = Some [], r_grounding = None, r_unanswered = Some u,
          r_searchedIn = None\<rparr>)) #
       (case name of None \<Rightarrow> [] | Some n \<Rightarrow> [CreateSession email sid n]) @
       [AppendMessage email sid m]"
proof -
  define w2 where "w2 = create_if_new E email sid name (respond (Response 200 (AnswerBody
         \<lparr>r_sessionId = Some sid,
          r_answer = js ''Sorry, none of the departments can answer this.'',
          r_storesUsed = Some [], r_grounding = None, r_unanswered = Some u,
          r_searchedIn = None\<rparr>)) w)"
  define m where "m = \<lparr>m_role = js ''assistant'', m_question = q,
      m_answer = js ''Sorry, none of the departments can answer this.'',
      m_storesUsed = [], m_grounding = [],
      m_timestamp = now E (clock w2), m_unresolvedParts = Some u,
      m_searchedIn = None\<rparr>"
  have "no_store_selected E email q sid name u w =
      appendMessageToSessionFile E email sid m (w2\<lparr>clock := clock w2 + 1\<rparr>)"
    by (simp add: no_store_selected_def Let_def w2_def m_def)
  then have "trace (no_store_selected E email q sid name u w) =
       trace w @
       Respond (Response 200 (AnswerBody
         \<lparr>r_sessionId = Some sid,
          r_answer = js ''Sorry, none of the departments can answer this.'',
          r_storesUsed = Some [], r_grounding = None, r_unanswered = Some u,
          r_searchedIn = None\<rparr>)) #
       (case name of None \<Rightarrow> [] | Some n \<Rightarrow> [CreateSession email sid n]) @
       [AppendMessage email sid m]"
    by (simp add: w2_def trace_appendMessage trace_create_if_new respond_def)
  then show ?thesis by blast
qed

subsection \<open>From the request to the branches\<close>


lemma ask_zero_stores:
  "truthy (req_email req) = Some email \<Longrightarrow> truthy (req_question req) = Some question \<Longrightarrow>
   readStudent E email = Some student \<Longrightarrow> accessible_of student = [] \<Longrightarrow>
     ask E req w =
       w\<lparr>trace := trace w @
           [Respond (Response 200 (AnswerBody
              \<lparr>r_sessionId = None,
               r_answer = js ''No RAG stores available for your account.'',
               r_storesUsed = Some [], r_grounding = Some [],
               r_unanswered = None, r_searchedIn = None\<rparr>))]\<rparr>"
  by (simp add: ask_def Let_def respond_def)





lemma route_no_store:
  assumes "classifyStores E key (map storeName acc) q = Inr v"
    and "properties_of v = Some c"
    and "predictedStores_of c = []"
  shows "route E acc key email q sid name w =
     no_store_selected E email q sid name (unanswered_of c) w"
  using assms by (simp add: route_def Let_def)

subsection \<open>Reading a trace\<close>





lemma logged_stores_append:
  "logged_stores (xs @ ys) = logged_stores xs @ logged_stores ys"
  by (induction xs rule: logged_stores.induct) simp_all



lemma logged_stores_create:
  "logged_stores (case name of None \<Rightarrow> [] | Some n \<Rightarrow> [CreateSession email sid n]) = []"
  by (simp split: option.split)

lemma called_stores_calls: "called_stores (map (\<lambda>s. RagCall key s (f s)) ss) = ss"
  by (induction ss) simp_all


lemma logged_stores_map2:
  "length rs = length ts \<Longrightarrow> (\<And>r t. l_store_name (l r t) = f r) \<Longrightarrow>
     logged_stores (map2 (\<lambda>r t. AppendProviderLog (p r) (l r t)) rs ts) = map f rs"
  by (induction rs ts rule: list_induct2) simp_all

lemma provider_logs_map2:
  "list_all is_provider_log (map2 (\<lambda>r t. AppendProviderLog (p r) (l r t)) rs ts)"
  by (simp add: list_all_iff) (auto dest!: set_zip_leftD)

lemma persistence_in_order_steps:
  "persistence_in_order
     ((case name of None \<Rightarrow> [] | Some n \<Rightarrow> [CreateSession email sid n]) @
      AppendMessage email sid m # logs) = list_all is_provider_log logs"
  by (simp split: option.split)


subsection \<open>The merged answer\<close>


subsection \<open>The properties\<close>



subsection \<open>The sample account\<close>

lemma sample_valid:
  "truthy (req_email (sample_request sid)) = Some (js ''s@u.edu'')"
  "truthy (req_question (sample_request sid)) = Some (js ''When do you open?'')"
  by (simp_all add: sample_request_def truthy_def js_def)

lemma sample_found: "readStudent (sample_env st cr llm r) (js ''s@u.edu'') = Some st"
  by (simp add: readStudent_def sample_env_def sanitize_def safe_char_def js_def)








lemma sample_session:
  "session_of (sample_env st cr llm r) (sample_request None) q =
     (js ''session_1700000000000_k3x9qa'', Some (generateSessionName q))"
  by (simp add: session_of_def sample_request_def truthy_def sample_env_def js_def)




subsection \<open>Order of the effects\<close>

lemma route_events:
  "\<exists>calls r persist.
     trace (route E acc key email q sid name w) = trace w @ calls @ Respond r # persist \<and>
     list_all is_rag_call calls \<and> persistence_in_order persist \<and>
     subseq (logged_stores persist) (called_stores calls)"
proof (cases "classifyStores E key (map storeName acc) q")
  case (Inl err)
  then have "trace (route E acc key email q sid name w) =
      trace w @ [] @ Respond (Response 500 (ErrorBody (js ''Internal Server Error''))) # [] \<and>
      list_all is_rag_call [] \<and> persistence_in_order [] \<and>
      subseq (logged_stores []) (called_stores [])"
    by (simp add: route_def respond_def)
  then show ?thesis by blast
next
  case (Inr v)
  show ?thesis
  proof (cases "properties_of v")
    case None
    with Inr have "trace (route E acc key email q sid name w) =
        trace w @ [] @ Respond (Response 500 (ErrorBody (js ''Internal Server Error''))) # [] \<and>
        list_all is_rag_call [] \<and> persistence_in_order [] \<and>
        subseq (logged_stores []) (called_stores [])"
      by (simp add: route_def respond_def)
    then show ?thesis by blast
  next
  case (Some c)
  show ?thesis
  proof (cases "predictedStores_of c = []")
    case True
    obtain m where
      "trace (no_store_selected E email q sid name (unanswered_of c) w) =
         trace w @
         Respond (Response 200 (AnswerBody
           \<lparr>r_sessionId = Some sid,
            r_answer = js ''Sorry, none of the departments can answer this.'',
            r_storesUsed = Some [], r_grounding = None,
            r_unanswered = Some (unanswered_of c), r_searchedIn = None\<rparr>)) #
         (case name of None \<Rightarrow> [] | Some n \<Rightarrow> [CreateSession email sid n]) @
         [AppendMessage email sid m]"
      using no_store_selected_trace by blast
    then have "trace (route E acc key email q sid name w) =
        trace w @ [] @
         Respond (Response 200 (AnswerBody
           \<lparr>r_sessionId = Some sid,
            r_answer = js ''Sorry, none of the departments can answer this.'',
            r_storesUsed = Some [], r_grounding = None,
            r_unanswered = Some (unanswered_of c), r_searchedIn = None\<rparr>)) #
         ((case name of None \<Rightarrow> [] | Some n \<Rightarrow> [CreateSession email sid n]) @
         [AppendMessage email sid m]) \<and>
        list_all is_rag_call [] \<and>
        persistence_in_order ((case name of None \<Rightarrow> [] | Some n \<Rightarrow> [CreateSession email sid n]) @
         [AppendMessage email sid m]) \<and>
        subseq (logged_stores ((case name of None \<Rightarrow> [] | Some n \<Rightarrow> [CreateSession email sid n]) @
         [AppendMessage email sid m])) (called_stores [])"
      by (simp add: route_no_store [OF Inr Some True] persistence_in_order_steps
          logged_stores_append logged_stores_create)
    then show ?thesis by blast
  next
    case False
    obtain out w1 where
      f: "fan_out E key (splitQuestions_of c) q (predictedStores_of c) 0 [] [] w = (out, w1)"
      by (cases "fan_out E key (splitQuestions_of c) q (predictedStores_of c) 0 [] [] w")
    from fan_out_calls [OF f] obtain calls new where
      w1: "w1 = w\<lparr>trace := trace w @ calls\<rparr>" and rc: "list_all is_rag_call calls" and
      o: "case out of
            StoreFailed s qs rs' g' \<Rightarrow> rs' = [] @ new \<and> called_stores calls = map rr_store new @ [s]
          | AllAnswered rs' g' \<Rightarrow> rs' = [] @ new \<and> called_stores calls = map rr_store new
          | CallRejected \<Rightarrow> True"
      by blast
    show ?thesis
    proof (cases out)
      case (StoreFailed s qs rs g)
      with o have cs: "called_stores calls = map rr_store new @ [s]" by simp
      have r: "route E acc key email q sid name w =
          store_failed E acc email q sid name s qs w1"
        using Inr Some False f StoreFailed by (simp add: route_def Let_def)
      let ?logs = "\<lambda>t. case provider_of acc s of
            None \<Rightarrow> []
          | Some p \<Rightarrow>
              [AppendProviderLog p
                 \<lparr>l_provider_email = Some p, l_user_email = email, l_store_name = s,
                  l_question = qs, l_response = None, l_grounding = None, l_asked_at = t\<rparr>]"
      obtain m t where
        tr: "trace (store_failed E acc email q sid name s qs w1) =
           trace w1 @
           Respond (Response 200 (AnswerBody
             \<lparr>r_sessionId = Some sid,
              r_answer = js ''Sorry we didn't find any information related to this.'',
              r_storesUsed = None, r_grounding = None, r_unanswered = None,
              r_searchedIn = Some (provider_of acc s)\<rparr>)) #
           (case name of None \<Rightarrow> [] | Some n \<Rightarrow> [CreateSession email sid n]) @
           AppendMessage email sid m # ?logs t"
        using store_failed_trace by blast
      have pl: "list_all is_provider_log (?logs t)" by (simp split: option.split)
      have "subseq [s] (map rr_store new @ [s])"
        by (rule list_emb_append2) simp
      then have ls: "subseq (logged_stores (?logs t)) (map rr_store new @ [s])"
        by (simp split: option.split)
      have "trace (route E acc key email q sid name w) =
          trace w @ calls @
           Respond (Response 200 (AnswerBody
             \<lparr>r_sessionId = Some sid,
              r_answer = js ''Sorry we didn't find any information related to this.'',
              r_storesUsed = None, r_grounding = None, r_unanswered = None,
              r_searchedIn = Some (provider_of acc s)\<rparr>)) #
           ((case name of None \<Rightarrow> [] | Some n \<Rightarrow> [CreateSession email sid n]) @
            AppendMessage email sid m # ?logs t) \<and>
          list_all is_rag_call calls \<and>
          persistence_in_order
            ((case name of None \<Rightarrow> [] | Some n \<Rightarrow> [CreateSession email sid n]) @
             AppendMessage email sid m # ?logs t) \<and>
          subseq
            (logged_stores
               ((case name of None \<Rightarrow> [] | Some n \<Rightarrow> [CreateSession email sid n]) @
                AppendMessage email sid m # ?logs t))
            (called_stores calls)"
        unfolding r tr persistence_in_order_steps cs
        using rc pl ls by (simp add: w1 logged_stores_append logged_stores_create)
      then show ?thesis by blast
    next
      case (AllAnswered rs g)
      with o have cs: "called_stores calls = map rr_store rs" by simp
      have r: "route E acc key email q sid name w =
          all_answered E acc (splitQuestions_of c) email q sid name (predictedStores_of c)
            rs g w1"
        using Inr Some False f AllAnswered by (simp add: route_def Let_def)
      let ?sq = "splitQuestions_of c"
      let ?logs = "\<lambda>ts. map2 (\<lambda>r t. AppendProviderLog (log_target acc (rr_store r))
               \<lparr>l_provider_email = provider_of acc (rr_store r), l_user_email = email,
                l_store_name = rr_store r, l_question = qForStore ?sq q (rr_store r),
                l_response = Some (rr_answerText r),
                l_grounding = Some (rr_groundingChunks r), l_asked_at = t\<rparr>) rs ts"
      obtain m ts where len: "length ts = length rs" and
        tr: "trace (all_answered E acc ?sq email q sid name (predictedStores_of c) rs g w1) =
           trace w1 @
           Respond (Response 200 (AnswerBody
             \<lparr>r_sessionId = Some sid, r_answer = merge_answers rs,
              r_storesUsed = Some (predictedStores_of c),
              r_grounding = Some g, r_unanswered = None, r_searchedIn = None\<rparr>)) #
           (case name of None \<Rightarrow> [] | Some n \<Rightarrow> [CreateSession email sid n]) @
           AppendMessage email sid m # ?logs ts"
        using all_answered_trace by blast
      have pl: "list_all is_provider_log (?logs ts)" by (rule provider_logs_map2)
      have ls: "logged_stores (?logs ts) = map rr_store rs"
        using len by (intro logged_stores_map2) simp_all
      have "trace (route E acc key email q sid name w) =
          trace w @ calls @
           Respond (Response 200 (AnswerBody
             \<lparr>r_sessionId = Some sid, r_answer = merge_answers rs,
              r_storesUsed = Some (predictedStores_of c),
              r_grounding = Some g, r_unanswered = None, r_searchedIn = None\<rparr>)) #
           ((case name of None \<Rightarrow> [] | Some n \<Rightarrow> [CreateSession email sid n]) @
            AppendMessage email sid m # ?logs ts) \<and>
          list_all is_rag_call calls \<and>
          persistence_in_order
            ((case name of None \<Rightarrow> [] | Some n \<Rightarrow> [CreateSession email sid n]) @
             AppendMessage email sid m # ?logs ts) \<and>
          subseq
            (logged_stores
               ((case name of None \<Rightarrow> [] | Some n \<Rightarrow> [CreateSession email sid n]) @
                AppendMessage email sid m # ?logs ts))
            (called_stores calls)"
        unfolding r tr persistence_in_order_steps cs
        using rc pl by (simp add: w1 logged_stores_append logged_stores_create ls)
      then show ?thesis by blast
    next
      case CallRejected
      have "trace (route E acc key email q sid name w) =
          trace w @ calls @
          Respond (Response 500 (ErrorBody (js ''Internal Server Error''))) # [] \<and>
          list_all is_rag_call calls \<and> persistence_in_order [] \<and>
          subseq (logged_stores []) (called_stores calls)"
        using Inr Some False f CallRejected rc by (simp add: route_def Let_def respond_def w1)
      then show ?thesis by blast
    qed
  qed
  qed
qed

lemma respond_events:
  "\<exists>calls r persist.
     trace (respond x w) = trace w @ calls @ Respond r # persist \<and>
     list_all is_rag_call calls \<and> persistence_in_order persist \<and>
     subseq (logged_stores persist) (called_stores calls)"
proof -
  have "trace (respond x w) = trace w @ [] @ Respond x # [] \<and>
     list_all is_rag_call [] \<and> persistence_in_order [] \<and>
     subseq (logged_stores []) (called_stores [])"
    by (simp add: respond_def)
  then show ?thesis by blast
qed

text \<open>
  C4. The events of every request are retrieval calls, then the response, then
  persistence steps only: nothing is persisted before the response is sent. The
  persistence steps are in program order, the session file first when the session is
  new, then the message, then the provider log entries, and these entries are for stores
  in the order in which the stores were called.
\<close>

theorem response_precedes_persistence:
  "\<exists>calls r persist.
     trace (ask E req w) = trace w @ calls @ Respond r # persist \<and>
     list_all is_rag_call calls \<and> persistence_in_order persist \<and>
     subseq (logged_stores persist) (called_stores calls)"
  unfolding ask_def Let_def
  by (simp split: option.split prod.split add: respond_events route_events)

text \<open>
  The theorem on the sample account when the second store fails.
\<close>

theorem response_precedes_persistence_witness:
  "\<exists>calls r persist.
     trace (ask (sample_env sample_student None Threw (Resolved None)) (sample_request None) empty_world) =
       calls @ Respond r # persist \<and>
     list_all is_rag_call calls \<and> persistence_in_order persist \<and>
     subseq (logged_stores persist) (called_stores calls)"
  using response_precedes_persistence
    [of "sample_env sample_student None Threw (Resolved None)" "sample_request None" empty_world]
  by (simp add: empty_world_def)

subsection \<open>An account without stores\<close>

text \<open>
  C5. A valid request of an account that resolves and has no accessible store is
  answered with the fixed text and empty \<open>storesUsed\<close> and \<open>grounding\<close>, and that response
  is the only event: no session file and no provider log file is created or changed.
\<close>

theorem zero_stores_no_persistence:
  assumes "truthy (req_email req) = Some email"
    and "truthy (req_question req) = Some question"
    and "readStudent E email = Some student"
    and "accessible_of student = []"
  shows "events_of E req w =
      [Respond (Response 200 (AnswerBody
         \<lparr>r_sessionId = None,
          r_answer = js ''No RAG stores available for your account.'',
          r_storesUsed = Some [], r_grounding = Some [],
          r_unanswered = None, r_searchedIn = None\<rparr>))] \<and>
    chat_sessions (ask E req w) = chat_sessions w \<and>
    provider_questions (ask E req w) = provider_questions w"
  unfolding ask_zero_stores [OF assms] by (simp add: events_of_def ask_zero_stores [OF assms])

text \<open>
  The theorem on a sample student whose list of stores is empty.
\<close>

theorem zero_stores_no_persistence_witness:
  "events_of (sample_env \<lparr>accessibleStores = Some [], universityEmail = None\<rparr> None Threw (Resolved None))
       (sample_request None) empty_world =
      [Respond (Response 200 (AnswerBody
         \<lparr>r_sessionId = None,
          r_answer = js ''No RAG stores available for your account.'',
          r_storesUsed = Some [], r_grounding = Some [],
          r_unanswered = None, r_searchedIn = None\<rparr>))]"
proof -
  have "accessible_of \<lparr>accessibleStores = Some [], universityEmail = None\<rparr> = []"
    by (simp add: accessible_of_def)
  from zero_stores_no_persistence
    [OF sample_valid(1) [of None] sample_valid(2) [of None] sample_found this]
  show ?thesis by simp
qed

text \<open>
  C10. In that branch the response carries \<open>sessionId: null\<close> whatever session id the
  caller supplied.
\<close>

theorem zero_stores_session_id_null:
  assumes "truthy (req_email req) = Some email"
    and "truthy (req_question req) = Some question"
    and "readStudent E email = Some student"
    and "accessible_of student = []"
  shows "\<exists>b. events_of E (req\<lparr>req_sessionId := supplied\<rparr>) w =
              [Respond (Response 200 (AnswerBody b))] \<and> r_sessionId b = None"
proof -
  have "truthy (req_email (req\<lparr>req_sessionId := supplied\<rparr>)) = Some email"
    and "truthy (req_question (req\<lparr>req_sessionId := supplied\<rparr>)) = Some question"
    using assms(1,2) by simp_all
  from ask_zero_stores [OF this assms(3,4)] show ?thesis
    by (simp add: events_of_def)
qed

text \<open>
  The theorem on a sample student without a list of stores, for a request that supplies
  the session id \<open>session_42\<close>.
\<close>

theorem zero_stores_session_id_null_witness:
  "\<exists>b. events_of (sample_env \<lparr>accessibleStores = None, universityEmail = None\<rparr> None Threw (Resolved None))
          (sample_request (Some (js ''session_42''))) empty_world =
        [Respond (Response 200 (AnswerBody b))] \<and> r_sessionId b = None"
proof -
  have "accessible_of \<lparr>accessibleStores = None, universityEmail = None\<rparr> = []"
    by (simp add: accessible_of_def)
  from zero_stores_session_id_null
    [OF sample_valid(1) [of None] sample_valid(2) [of None] sample_found this,
     where supplied = "Some (js ''session_42'')"]
  show ?thesis by (simp add: sample_request_def)
qed

subsection \<open>Provider log entries\<close>





lemma appendProviderLog_file:
  "provider_questions (appendProviderLog p l w) (sanitize p @ js ''.json'') =
     Some (LogArray
       ((case provider_questions w (sanitize p @ js ''.json'') of
           Some (LogArray a) \<Rightarrow> a
         | _ \<Rightarrow> []) @ [l]))"
  by (simp add: appendProviderLog_def Let_def)





subsection \<open>The classifier\<close>










subsection \<open>The session list\<close>

lemma insert_by_never_positive:
  "(\<And>a b. \<not> positive (cmp a b)) \<Longrightarrow> insert_by cmp x ys = x # ys"
  by (cases ys) simp_all

lemma js_sort_never_positive:
  "(\<And>a b. \<not> positive (cmp a b)) \<Longrightarrow> js_sort cmp xs = xs"
  by (induction xs) (simp_all add: js_sort_def insert_by_never_positive)

lemma iso_not_numeric:
  "\<not> list_all numeric_char (js ''2024-01-01T00:00:00.000Z'')"
  "\<not> list_all numeric_char (js ''2024-01-02T00:00:00.000Z'')"
  by (simp_all add: js_def numeric_char_def is_space_def)

text \<open>
  C8 fails on the code. The two sample sessions are listed in the order of the directory
  listing, the older one first: the comparator subtracts two timestamp strings, which
  gives \<open>NaN\<close> for every pair, so the sort moves nothing.
\<close>

theorem list_sessions_oldest_first:
  "list_sessions literal [js ''s@u.edu__a.json'', js ''s@u.edu__b.json''] sample_chat
     (js ''s@u.edu'') =
     [\<lparr>i_sessionId = js ''a'', i_sessionName = js ''Hello'',
       i_createdAt = js ''2024-01-01T00:00:00.000Z''\<rparr>,
      \<lparr>i_sessionId = js ''b'', i_sessionName = js ''Hello'',
       i_createdAt = js ''2024-01-02T00:00:00.000Z''\<rparr>]"
proof -
  have san: "sanitize (js ''s@u.edu'') @ js ''__'' = js ''s@u.edu__''"
    by (simp add: sanitize_def safe_char_def js_def)
  have p1: "prefix (js ''s@u.edu__'') (js ''s@u.edu__a.json'')"
    and p2: "prefix (js ''s@u.edu__'') (js ''s@u.edu__b.json'')"
    by (simp_all add: js_def)
  have f1: "chat_sessions sample_chat (js ''s@u.edu__a.json'') =
      Some (sample_session (js ''a'') (js ''2024-01-01T00:00:00.000Z''))"
    and f2: "chat_sessions sample_chat (js ''s@u.edu__b.json'') =
      Some (sample_session (js ''b'') (js ''2024-01-02T00:00:00.000Z''))"
    by (simp_all add: sample_chat_def js_def)
  have col: "collect_sessions sample_chat (sanitize (js ''s@u.edu'')) []
      [js ''s@u.edu__a.json'', js ''s@u.edu__b.json''] =
     [\<lparr>i_sessionId = js ''a'', i_sessionName = js ''Hello'',
       i_createdAt = js ''2024-01-01T00:00:00.000Z''\<rparr>,
      \<lparr>i_sessionId = js ''b'', i_sessionName = js ''Hello'',
       i_createdAt = js ''2024-01-02T00:00:00.000Z''\<rparr>]"
    by (simp add: san p1 p2 f1 f2 sample_session_def)
  have n1: "js ''2024-01-01T00:00:00.000Z'' \<noteq> []" and n2: "js ''2024-01-02T00:00:00.000Z'' \<noteq> []"
    by (simp_all add: js_def)
  show ?thesis
    unfolding list_sessions_def col
    by (simp add: js_sort_def createdAt_number_def StringToNumber_def iso_not_numeric n1 n2)
qed

end
